theory Spec2Isabelle
  imports Main "HOL-Library.AList"
begin

section \<open>Python values, dictionaries and exceptions\<close>

text \<open>
  The values that flow through \<^verbatim>\<open>structure.py\<close>: \<^verbatim>\<open>None\<close>, integers, strings, lists,
  dictionaries and plain objects with named attributes (the source objects that
  \<^verbatim>\<open>operator.attrgetter\<close> reads). A dictionary is an association list in insertion order;
  its keys are \<^verbatim>\<open>None\<close>, integers (the indices of \<^verbatim>\<open>enumerate\<close>) or strings (field names).
\<close>

datatype key = KNone | KInt int | KStr string

datatype pyval =
    PNone
  | PInt int
  | PStr string
  | PList "pyval list"
  | PDict "(key \<times> pyval) list"
  | PObj "(string \<times> pyval) list"

type_synonym dict = "(key \<times> pyval) list"

text \<open>
  \<^verbatim>\<open>ValidationException(errors)\<close> carries its argument as \<^verbatim>\<open>e.errors\<close>. The other
  constructors are the built-in exceptions that the operations below can raise; none of
  them is caught anywhere in \<^verbatim>\<open>structure.py\<close>.
\<close>

datatype exn = ValidationException pyval | TypeError | AttributeError | ValueError

type_synonym py_context = pyval

text \<open>A function that mutates the \<^verbatim>\<open>target\<close> it is given either returns or raises;
  in both cases the caller sees the target as the function left it.\<close>

datatype outcome = Returned | Raised exn

text \<open>\<^verbatim>\<open>d[k] = v\<close>: replaces the value in place when the key is present, appends otherwise.\<close>

definition dict_set :: "dict \<Rightarrow> key \<Rightarrow> pyval \<Rightarrow> dict" where
  "dict_set d k v = AList.update k v d"

text \<open>\<^verbatim>\<open>d.get(k, default)\<close> on a dictionary.\<close>

definition dict_get :: "dict \<Rightarrow> key \<Rightarrow> pyval \<Rightarrow> pyval" where
  "dict_get d k dflt = (case map_of d k of None \<Rightarrow> dflt | Some v \<Rightarrow> v)"

text \<open>\<^verbatim>\<open>source.get(k, default)\<close> on any value: only a dictionary has the method.\<close>

fun py_get :: "pyval \<Rightarrow> key \<Rightarrow> pyval \<Rightarrow> exn + pyval" where
  "py_get (PDict d) k dflt = Inr (dict_get d k dflt)"
| "py_get _ k dflt = Inl AttributeError"

fun key_val :: "key \<Rightarrow> pyval" where
  "key_val KNone = PNone"
| "key_val (KInt i) = PInt i"
| "key_val (KStr s) = PStr s"

text \<open>The key a value hashes to; lists and dictionaries are unhashable, and objects are
  not used as keys in this model.\<close>

fun key_of :: "pyval \<Rightarrow> key option" where
  "key_of PNone = Some KNone"
| "key_of (PInt i) = Some (KInt i)"
| "key_of (PStr s) = Some (KStr s)"
| "key_of _ = None"

text \<open>Iteration (\<^verbatim>\<open>for x in v\<close>, \<^verbatim>\<open>enumerate(v)\<close>): a list yields its elements, a string its
  characters, a dictionary its keys; anything else raises \<^verbatim>\<open>TypeError\<close>.\<close>

fun py_iter :: "pyval \<Rightarrow> exn + pyval list" where
  "py_iter (PList xs) = Inr xs"
| "py_iter (PStr s) = Inr (map (\<lambda>c. PStr [c]) s)"
| "py_iter (PDict d) = Inr (map (key_val \<circ> fst) d)"
| "py_iter _ = Inl TypeError"

text \<open>\<^verbatim>\<open>errors.update(other)\<close>. A dictionary argument is merged entry by entry, a later
  value replacing an earlier one under the same key. Any other argument is iterated as a
  sequence of two-element sequences (key, value).\<close>

definition dict_merge :: "dict \<Rightarrow> dict \<Rightarrow> dict" where
  "dict_merge d e = fold (\<lambda>(k, v) acc. dict_set acc k v) e d"

definition pair_of :: "pyval \<Rightarrow> exn + (key \<times> pyval)" where
  "pair_of x =
     (case py_iter x of
        Inl e \<Rightarrow> Inl TypeError
      | Inr [k, v] \<Rightarrow> (case key_of k of None \<Rightarrow> Inl TypeError | Some k' \<Rightarrow> Inr (k', v))
      | Inr _ \<Rightarrow> Inl ValueError)"

fun update_seq :: "dict \<Rightarrow> pyval list \<Rightarrow> exn + dict" where
  "update_seq d [] = Inr d"
| "update_seq d (x # xs) =
     (case pair_of x of Inl e \<Rightarrow> Inl e | Inr (k, v) \<Rightarrow> update_seq (dict_set d k v) xs)"

fun py_update :: "dict \<Rightarrow> pyval \<Rightarrow> exn + dict" where
  "py_update d (PDict e) = Inr (dict_merge d e)"
| "py_update d other = (case py_iter other of Inl e \<Rightarrow> Inl e | Inr xs \<Rightarrow> update_seq d xs)"

text \<open>\<^verbatim>\<open>operator.attrgetter(name)\<close>: a dotted name is followed attribute by attribute.
  An object carries the attributes it was built with; an integer carries the data
  attributes \<^verbatim>\<open>real\<close>, \<^verbatim>\<open>imag\<close>, \<^verbatim>\<open>numerator\<close> and \<^verbatim>\<open>denominator\<close>. The other attributes of
  the built-in values are bound methods and type-level attributes, which are no values
  of this model: reading one is modelled like reading a name the value does not have.\<close>

fun split_dots :: "string \<Rightarrow> string list" where
  "split_dots [] = [[]]"
| "split_dots (c # cs) =
     (if c = CHR ''.'' then [] # split_dots cs
      else (case split_dots cs of [] \<Rightarrow> [[c]] | w # ws \<Rightarrow> (c # w) # ws))"

fun getattr :: "pyval \<Rightarrow> string \<Rightarrow> exn + pyval" where
  "getattr (PObj attrs) a = (case map_of attrs a of None \<Rightarrow> Inl AttributeError | Some v \<Rightarrow> Inr v)"
| "getattr (PInt i) a =
     (if a = ''real'' \<or> a = ''numerator'' then Inr (PInt i)
      else if a = ''imag'' then Inr (PInt 0)
      else if a = ''denominator'' then Inr (PInt 1)
      else Inl AttributeError)"
| "getattr _ a = Inl AttributeError"

fun getattrs :: "string list \<Rightarrow> pyval \<Rightarrow> exn + pyval" where
  "getattrs [] obj = Inr obj"
| "getattrs (a # as) obj = (case getattr obj a of Inl e \<Rightarrow> Inl e | Inr v \<Rightarrow> getattrs as v)"

definition attrgetter :: "string \<Rightarrow> pyval \<Rightarrow> exn + pyval" where
  "attrgetter name obj = getattrs (split_dots name) obj"

section \<open>Translator\<close>

text \<open>\<^verbatim>\<open>class Translator\<close>: a pair of two callables. The structures \<^verbatim>\<open>field\<close>, \<^verbatim>\<open>child\<close> and
  \<^verbatim>\<open>many\<close> return one whose operations take \<^verbatim>\<open>(source, target, context)\<close> and write into
  \<^verbatim>\<open>target\<close>; \<^verbatim>\<open>serializer\<close> returns one whose operations take \<^verbatim>\<open>(source, context)\<close>.\<close>

record ('s, 'd) Translator =
  serialize :: 's
  deserialize :: 'd

type_synonym field_op = "pyval \<Rightarrow> dict \<Rightarrow> py_context \<Rightarrow> dict \<times> outcome"
type_synonym field_translator = "(field_op, field_op) Translator"

type_synonym record_op = "pyval \<Rightarrow> py_context \<Rightarrow> exn + pyval"
type_synonym record_translator = "(record_op, record_op) Translator"

type_synonym validator = "pyval \<Rightarrow> py_context \<Rightarrow> exn + pyval"
type_synonym formatter = "pyval \<Rightarrow> py_context \<Rightarrow> exn + pyval"
type_synonym getter = "pyval \<Rightarrow> exn + pyval"

section \<open>The validator chain\<close>

text \<open>\<^verbatim>\<open>run_validators(value, validators, context)\<close>: the loop carries \<^verbatim>\<open>value\<close> and
  \<^verbatim>\<open>errors\<close>; only \<^verbatim>\<open>ValidationException\<close> is caught.\<close>

fun run_validators_loop ::
  "validator list \<Rightarrow> py_context \<Rightarrow> pyval \<Rightarrow> pyval list \<Rightarrow> exn + (pyval \<times> pyval list)" where
  "run_validators_loop [] context value errors = Inr (value, errors)"
| "run_validators_loop (validator # rest) context value errors =
     (case validator value context of
        Inr value' \<Rightarrow> run_validators_loop rest context value' errors
      | Inl (ValidationException e) \<Rightarrow> run_validators_loop rest context value (errors @ [e])
      | Inl other \<Rightarrow> Inl other)"

definition run_validators ::
  "pyval \<Rightarrow> validator list \<Rightarrow> py_context \<Rightarrow> exn + (pyval \<times> pyval list)" where
  "run_validators value validators context = run_validators_loop validators context value []"

section \<open>field and dict_field\<close>

text \<open>\<^verbatim>\<open>x if x else y\<close> for an optional string: \<^verbatim>\<open>None\<close> and the empty string are falsy.\<close>

fun or_else :: "string option \<Rightarrow> string \<Rightarrow> string" where
  "or_else None y = y"
| "or_else (Some x) y = (if x = [] then y else x)"

text \<open>The inner \<^verbatim>\<open>_validate(value, field, context)\<close> of \<^verbatim>\<open>field\<close>.\<close>

definition field_validate :: "validator list \<Rightarrow> pyval \<Rightarrow> key \<Rightarrow> py_context \<Rightarrow> exn + pyval" where
  "field_validate validators value field_key context =
     (case run_validators value validators context of
        Inl x \<Rightarrow> Inl x
      | Inr (value', errors) \<Rightarrow>
          if errors \<noteq> [] then Inl (ValidationException (PDict [(field_key, PList errors)]))
          else Inr value')"

text \<open>The formatter loop of \<^verbatim>\<open>serialize\<close>; a formatter that raises aborts it.\<close>

fun run_formatters :: "formatter list \<Rightarrow> pyval \<Rightarrow> py_context \<Rightarrow> exn + pyval" where
  "run_formatters [] value context = Inr value"
| "run_formatters (formater # rest) value context =
     (case formater value context of
        Inl x \<Rightarrow> Inl x
      | Inr value' \<Rightarrow> run_formatters rest value' context)"

definition field_serialize :: "getter \<Rightarrow> string \<Rightarrow> formatter list \<Rightarrow> field_op" where
  "field_serialize attr_getter target_field formatters source target context =
     (case attr_getter source of
        Inl x \<Rightarrow> (target, Raised x)
      | Inr value \<Rightarrow>
          (case run_formatters formatters value context of
             Inl x \<Rightarrow> (target, Raised x)
           | Inr value' \<Rightarrow> (dict_set target (KStr target_field) value', Returned)))"

text \<open>The \<^verbatim>\<open>for i, v in enumerate(value)\<close> loop of the \<^verbatim>\<open>multiple\<close> branch; it carries the
  index, \<^verbatim>\<open>new_value\<close> and \<^verbatim>\<open>errors\<close>.\<close>

fun field_loop ::
  "validator list \<Rightarrow> py_context \<Rightarrow> nat \<Rightarrow> pyval list \<Rightarrow> pyval list \<Rightarrow> dict
     \<Rightarrow> exn + (pyval list \<times> dict)" where
  "field_loop validators context i [] new_value errors = Inr (new_value, errors)"
| "field_loop validators context i (v # rest) new_value errors =
     (case field_validate validators v (KInt (int i)) context of
        Inr v' \<Rightarrow> field_loop validators context (Suc i) rest (new_value @ [v']) errors
      | Inl (ValidationException e) \<Rightarrow>
          (case py_update errors e of
             Inl x \<Rightarrow> Inl x
           | Inr errors' \<Rightarrow> field_loop validators context (Suc i) rest new_value errors')
      | Inl other \<Rightarrow> Inl other)"

definition field_deserialize ::
  "string \<Rightarrow> string \<Rightarrow> validator list \<Rightarrow> bool \<Rightarrow> field_op" where
  "field_deserialize source_field target_field validators multiple source target context =
     (case py_get source (KStr target_field) PNone of
        Inl x \<Rightarrow> (target, Raised x)
      | Inr value \<Rightarrow>
          if multiple then
            (case py_iter value of
               Inl x \<Rightarrow> (target, Raised x)
             | Inr vs \<Rightarrow>
                 (case field_loop validators context 0 vs [] [] of
                    Inl x \<Rightarrow> (target, Raised x)
                  | Inr (new_value, errors) \<Rightarrow>
                      if errors \<noteq> [] then
                        (target,
                         Raised (ValidationException (PDict [(KStr target_field, PDict errors)])))
                      else (dict_set target (KStr source_field) (PList new_value), Returned)))
          else
            (case field_validate validators value (KStr target_field) context of
               Inl x \<Rightarrow> (target, Raised x)
             | Inr value' \<Rightarrow> (dict_set target (KStr source_field) value', Returned)))"

text \<open>\<^verbatim>\<open>field(source_field, target_field=None, validators=None, multiple=False,
  attr_getter=None, formatters=None)\<close>. A missing list of validators or formatters is the
  empty list.\<close>

definition field ::
  "string \<Rightarrow> string option \<Rightarrow> validator list \<Rightarrow> bool \<Rightarrow> getter option \<Rightarrow> formatter list
     \<Rightarrow> field_translator" where
  "field source_field target_field validators multiple attr_getter formatters =
     (let target_field' = or_else target_field source_field;
          attr_getter' = (case attr_getter of None \<Rightarrow> attrgetter source_field | Some g \<Rightarrow> g)
      in \<lparr>serialize = field_serialize attr_getter' target_field' formatters,
          deserialize = field_deserialize source_field target_field' validators multiple\<rparr>)"

text \<open>\<^verbatim>\<open>dict_field(*args, **kwargs)\<close> with \<^verbatim>\<open>source_field\<close> as \<^verbatim>\<open>args[0]\<close>:
  \<^verbatim>\<open>kwargs.setdefault\<close> installs the key lookup only when the caller passed no
  \<^verbatim>\<open>attr_getter\<close> keyword at all (\<open>None\<close> here); a keyword the caller passed, even
  \<^verbatim>\<open>attr_getter=None\<close> (\<open>Some None\<close>), is kept.\<close>

definition dict_field ::
  "string \<Rightarrow> string option \<Rightarrow> validator list \<Rightarrow> bool \<Rightarrow> getter option option
     \<Rightarrow> formatter list \<Rightarrow> field_translator" where
  "dict_field source_field target_field validators multiple attr_getter formatters =
     field source_field target_field validators multiple
       (case attr_getter of
          None \<Rightarrow> Some (\<lambda>d. py_get d (KStr source_field) PNone)
        | Some g \<Rightarrow> g)
       formatters"

section \<open>child and many\<close>

text \<open>The block \<^verbatim>\<open>if validators: ...\<close> that \<^verbatim>\<open>child.deserialize\<close> and
  \<^verbatim>\<open>many.deserialize\<close> both run on the raw sub-value before they delegate.\<close>

definition pre_validate ::
  "string \<Rightarrow> validator list \<Rightarrow> pyval \<Rightarrow> py_context \<Rightarrow> exn + pyval" where
  "pre_validate target_field validators sub_source context =
     (if validators \<noteq> [] then
        (case run_validators sub_source validators context of
           Inl x \<Rightarrow> Inl x
         | Inr (sub_source', errors) \<Rightarrow>
             if errors \<noteq> [] then
               Inl (ValidationException (PDict [(KStr target_field, PList errors)]))
             else Inr sub_source')
      else Inr sub_source)"

text \<open>\<^verbatim>\<open>serializer.serialize(...)\<close> and \<^verbatim>\<open>serializer.deserialize(...)\<close> on the optional
  \<^verbatim>\<open>serializer\<close> argument, whose default is \<^verbatim>\<open>None\<close>.\<close>

fun sub_serialize :: "record_translator option \<Rightarrow> record_op" where
  "sub_serialize None source context = Inl AttributeError"
| "sub_serialize (Some s) source context = serialize s source context"

fun sub_deserialize :: "record_translator option \<Rightarrow> record_op" where
  "sub_deserialize None source context = Inl AttributeError"
| "sub_deserialize (Some s) source context = deserialize s source context"

definition child_serialize :: "getter \<Rightarrow> string \<Rightarrow> record_translator option \<Rightarrow> field_op" where
  "child_serialize attr_getter target_field serializer source target context =
     (case attr_getter source of
        Inl x \<Rightarrow> (target, Raised x)
      | Inr sub_source \<Rightarrow>
          (case sub_serialize serializer sub_source context of
             Inl x \<Rightarrow> (target, Raised x)
           | Inr r \<Rightarrow> (dict_set target (KStr target_field) r, Returned)))"

definition child_deserialize ::
  "string \<Rightarrow> string \<Rightarrow> record_translator option \<Rightarrow> validator list \<Rightarrow> field_op" where
  "child_deserialize source_field target_field serializer validators source target context =
     (case py_get source (KStr target_field) PNone of
        Inl x \<Rightarrow> (target, Raised x)
      | Inr sub_source \<Rightarrow>
          (case pre_validate target_field validators sub_source context of
             Inl x \<Rightarrow> (target, Raised x)
           | Inr sub_source' \<Rightarrow>
               (case sub_deserialize serializer sub_source' context of
                  Inr r \<Rightarrow> (dict_set target (KStr source_field) r, Returned)
                | Inl (ValidationException e) \<Rightarrow>
                    (target, Raised (ValidationException (PDict [(KStr target_field, e)])))
                | Inl other \<Rightarrow> (target, Raised other))))"

definition child ::
  "string \<Rightarrow> string option \<Rightarrow> record_translator option \<Rightarrow> validator list \<Rightarrow> getter option
     \<Rightarrow> field_translator" where
  "child source_field target_field serializer validators attr_getter =
     (let target_field' = or_else target_field source_field;
          attr_getter' = (case attr_getter of None \<Rightarrow> attrgetter source_field | Some g \<Rightarrow> g)
      in \<lparr>serialize = child_serialize attr_getter' target_field' serializer,
          deserialize = child_deserialize source_field target_field' serializer validators\<rparr>)"

text \<open>The list comprehension of \<^verbatim>\<open>many.serialize\<close>.\<close>

fun serialize_each :: "record_translator option \<Rightarrow> py_context \<Rightarrow> pyval list \<Rightarrow> exn + pyval list" where
  "serialize_each serializer context [] = Inr []"
| "serialize_each serializer context (i # rest) =
     (case sub_serialize serializer i context of
        Inl x \<Rightarrow> Inl x
      | Inr r \<Rightarrow>
          (case serialize_each serializer context rest of
             Inl x \<Rightarrow> Inl x
           | Inr rs \<Rightarrow> Inr (r # rs)))"

definition many_serialize :: "getter \<Rightarrow> string \<Rightarrow> record_translator option \<Rightarrow> field_op" where
  "many_serialize attr_getter target_field serializer source target context =
     (case attr_getter source of
        Inl x \<Rightarrow> (target, Raised x)
      | Inr sub_source \<Rightarrow>
          (case py_iter sub_source of
             Inl x \<Rightarrow> (target, Raised x)
           | Inr items \<Rightarrow>
               (case serialize_each serializer context items of
                  Inl x \<Rightarrow> (target, Raised x)
                | Inr collector \<Rightarrow>
                    (dict_set target (KStr target_field) (PList collector), Returned))))"

text \<open>The \<^verbatim>\<open>for i in sub_source\<close> loop of \<^verbatim>\<open>many.deserialize\<close>; it carries \<^verbatim>\<open>collector\<close>
  and \<^verbatim>\<open>errors\<close>.\<close>

fun many_loop ::
  "record_translator option \<Rightarrow> py_context \<Rightarrow> pyval list \<Rightarrow> pyval list \<Rightarrow> pyval list
     \<Rightarrow> exn + (pyval list \<times> pyval list)" where
  "many_loop serializer context [] collector errors = Inr (collector, errors)"
| "many_loop serializer context (i # rest) collector errors =
     (case sub_deserialize serializer i context of
        Inr r \<Rightarrow> many_loop serializer context rest (collector @ [r]) errors
      | Inl (ValidationException e) \<Rightarrow> many_loop serializer context rest collector (errors @ [e])
      | Inl other \<Rightarrow> Inl other)"

definition many_deserialize ::
  "string \<Rightarrow> string \<Rightarrow> record_translator option \<Rightarrow> validator list \<Rightarrow> field_op" where
  "many_deserialize source_field target_field serializer validators source target context =
     (case py_get source (KStr target_field) (PList []) of
        Inl x \<Rightarrow> (target, Raised x)
      | Inr sub_source \<Rightarrow>
          (case pre_validate target_field validators sub_source context of
             Inl x \<Rightarrow> (target, Raised x)
           | Inr sub_source' \<Rightarrow>
               (case py_iter sub_source' of
                  Inl x \<Rightarrow> (target, Raised x)
                | Inr items \<Rightarrow>
                    (case many_loop serializer context items [] [] of
                       Inl x \<Rightarrow> (target, Raised x)
                     | Inr (collector, errors) \<Rightarrow>
                         (dict_set target (KStr source_field) (PList collector),
                          if errors \<noteq> [] then
                            Raised (ValidationException
                                      (PDict [(KStr target_field, PList errors)]))
                          else Returned)))))"

definition many ::
  "string \<Rightarrow> string option \<Rightarrow> record_translator option \<Rightarrow> validator list \<Rightarrow> getter option
     \<Rightarrow> field_translator" where
  "many source_field target_field serializer validators attr_getter =
     (let target_field' = or_else target_field source_field;
          attr_getter' = (case attr_getter of None \<Rightarrow> attrgetter source_field | Some g \<Rightarrow> g)
      in \<lparr>serialize = many_serialize attr_getter' target_field' serializer,
          deserialize = many_deserialize source_field target_field' serializer validators\<rparr>)"

section \<open>serializer\<close>

text \<open>The list comprehension of \<^verbatim>\<open>serializer.serialize\<close>: every field writes into the
  same \<^verbatim>\<open>target\<close>; an exception leaves the comprehension.\<close>

fun serialize_fields ::
  "field_translator list \<Rightarrow> pyval \<Rightarrow> py_context \<Rightarrow> dict \<Rightarrow> exn + dict" where
  "serialize_fields [] source context target = Inr target"
| "serialize_fields (f # rest) source context target =
     (case serialize f source target context of
        (target', Returned) \<Rightarrow> serialize_fields rest source context target'
      | (target', Raised x) \<Rightarrow> Inl x)"

definition serializer_serialize :: "field_translator list \<Rightarrow> record_op" where
  "serializer_serialize flds source context =
     (case serialize_fields flds source context [] of
        Inl x \<Rightarrow> Inl x
      | Inr target \<Rightarrow> Inr (PDict target))"

text \<open>The \<^verbatim>\<open>for field in fields\<close> loop of \<^verbatim>\<open>serializer.deserialize\<close>; it carries \<^verbatim>\<open>target\<close>
  and \<^verbatim>\<open>errors\<close>.\<close>

fun deserialize_fields ::
  "field_translator list \<Rightarrow> pyval \<Rightarrow> py_context \<Rightarrow> dict \<Rightarrow> dict \<Rightarrow> exn + (dict \<times> dict)" where
  "deserialize_fields [] source context target errors = Inr (target, errors)"
| "deserialize_fields (f # rest) source context target errors =
     (case deserialize f source target context of
        (target', Returned) \<Rightarrow> deserialize_fields rest source context target' errors
      | (target', Raised (ValidationException e)) \<Rightarrow>
          (case py_update errors e of
             Inl x \<Rightarrow> Inl x
           | Inr errors' \<Rightarrow> deserialize_fields rest source context target' errors')
      | (target', Raised other) \<Rightarrow> Inl other)"

definition serializer_deserialize :: "field_translator list \<Rightarrow> record_op" where
  "serializer_deserialize flds source context =
     (case deserialize_fields flds source context [] [] of
        Inl x \<Rightarrow> Inl x
      | Inr (target, errors) \<Rightarrow>
          if errors \<noteq> [] then Inl (ValidationException (PDict errors))
          else Inr (PDict target))"

definition serializer :: "field_translator list \<Rightarrow> record_translator" where
  "serializer flds =
     \<lparr>serialize = serializer_serialize flds,
      deserialize = serializer_deserialize flds\<rparr>"

section \<open>Notions used to state the properties\<close>

text \<open>A delegation or a validator call that either returns or raises a
  \<^verbatim>\<open>ValidationException\<close>; any other exception is not caught by the library.\<close>

definition returns_or_rejects :: "exn + 'a \<Rightarrow> bool" where
  "returns_or_rejects r =
     (case r of Inr _ \<Rightarrow> True | Inl (ValidationException _) \<Rightarrow> True | Inl _ \<Rightarrow> False)"

text \<open>Of a list of delegation results, the values of those that returned and the
  payloads of those that raised a \<^verbatim>\<open>ValidationException\<close>, each in the order of the list.\<close>

fun accepted :: "(exn + 'a) list \<Rightarrow> 'a list" where
  "accepted [] = []"
| "accepted (Inr r # rest) = r # accepted rest"
| "accepted (Inl x # rest) = accepted rest"

fun rejected :: "(exn + 'a) list \<Rightarrow> pyval list" where
  "rejected [] = []"
| "rejected (Inl (ValidationException e) # rest) = e # rejected rest"
| "rejected (r # rest) = rejected rest"

text \<open>What every field of a record does when each one is run in order on the shared
  \<^verbatim>\<open>target\<close>, whatever the fields before it did: the target each field leaves behind and
  whether it returned or raised.\<close>

fun field_runs ::
  "field_translator list \<Rightarrow> pyval \<Rightarrow> py_context \<Rightarrow> dict \<Rightarrow> (dict \<times> outcome) list" where
  "field_runs [] source context target = []"
| "field_runs (f # rest) source context target =
     (let r = deserialize f source target context
      in r # field_runs rest source context (fst r))"

text \<open>A field run that returned, or raised a \<^verbatim>\<open>ValidationException\<close> whose payload is a
  mapping, as every \<^verbatim>\<open>field\<close>, \<^verbatim>\<open>child\<close> and \<^verbatim>\<open>many\<close> does.\<close>

fun mapping_outcome :: "outcome \<Rightarrow> bool" where
  "mapping_outcome Returned = True"
| "mapping_outcome (Raised (ValidationException (PDict e))) = True"
| "mapping_outcome _ = False"

text \<open>The mappings that the runs raised, in the order of the fields.\<close>

fun raised_mappings :: "(dict \<times> outcome) list \<Rightarrow> dict list" where
  "raised_mappings [] = []"
| "raised_mappings ((t, Raised (ValidationException (PDict e))) # rest) = e # raised_mappings rest"
| "raised_mappings (r # rest) = raised_mappings rest"

text \<open>The target that the last run left behind.\<close>

definition final_target :: "dict \<Rightarrow> (dict \<times> outcome) list \<Rightarrow> dict" where
  "final_target target runs = (if runs = [] then target else fst (last runs))"

text \<open>The mappings merged one after the other into \<^verbatim>\<open>errors\<close>.\<close>

definition merge_all :: "dict \<Rightarrow> dict list \<Rightarrow> dict" where
  "merge_all errors ms = fold (\<lambda>e acc. dict_merge acc e) ms errors"

text \<open>The description of one \<^verbatim>\<open>dict_field\<close> of a record: the arguments of the
  constructor, with the key lookup as its getter.\<close>

record field_spec =
  fs_source :: string
  fs_target :: "string option"
  fs_validators :: "validator list"
  fs_multiple :: bool
  fs_formatters :: "formatter list"

definition dict_field_of :: "field_spec \<Rightarrow> field_translator" where
  "dict_field_of p =
     dict_field (fs_source p) (fs_target p) (fs_validators p) (fs_multiple p) None (fs_formatters p)"

text \<open>The key a field uses on the internal side (\<^verbatim>\<open>source_field\<close>) and on the external
  side (\<^verbatim>\<open>target_field\<close>, which defaults to \<^verbatim>\<open>source_field\<close>).\<close>

definition skey :: "field_spec \<Rightarrow> key" where
  "skey p = KStr (fs_source p)"

definition tkey :: "field_spec \<Rightarrow> key" where
  "tkey p = KStr (or_else (fs_target p) (fs_source p))"

text \<open>Validators and formatters that do not alter the value: a validator returns the
  value it is given or raises a \<^verbatim>\<open>ValidationException\<close>; a formatter returns the value it
  is given.\<close>

definition keeps_values :: "py_context \<Rightarrow> field_spec \<Rightarrow> bool" where
  "keeps_values c p \<longleftrightarrow>
     (\<forall>f\<in>set (fs_validators p). \<forall>x.
        f x c = Inr x \<or> (\<exists>e. f x c = Inl (ValidationException e))) \<and>
     (\<forall>f\<in>set (fs_formatters p). \<forall>x. f x c = Inr x)"

text \<open>No validator of the field rejects the value.\<close>

definition passes :: "py_context \<Rightarrow> field_spec \<Rightarrow> pyval \<Rightarrow> bool" where
  "passes c p v \<longleftrightarrow>
     (\<forall>f\<in>set (fs_validators p).
        case f v c of Inl (ValidationException e) \<Rightarrow> False | _ \<Rightarrow> True)"

text \<open>A value fits a field when the field's validators accept it; for a field built with
  \<^verbatim>\<open>multiple=True\<close> the value is a list and the validators accept each element.\<close>

definition fits :: "py_context \<Rightarrow> field_spec \<Rightarrow> pyval \<Rightarrow> bool" where
  "fits c p v \<longleftrightarrow>
     (if fs_multiple p then (case v of PList xs \<Rightarrow> (\<forall>x\<in>set xs. passes c p x) | _ \<Rightarrow> False)
      else passes c p v)"

text \<open>A mapping is well typed for a record, on the side whose keys \<open>key_of_spec\<close> gives,
  when its keys are exactly the keys of the fields and the value under each field's key
  fits the field.\<close>

definition well_typed ::
  "py_context \<Rightarrow> (field_spec \<Rightarrow> key) \<Rightarrow> field_spec list \<Rightarrow> dict \<Rightarrow> bool" where
  "well_typed c key_of_spec specs d \<longleftrightarrow>
     fst ` set d = key_of_spec ` set specs \<and>
     (\<forall>p\<in>set specs. fits c p (dict_get d (key_of_spec p) PNone))"


section \<open>Validators used in the worked examples\<close>

text \<open>Three validators with the signature the library expects,
  \<^verbatim>\<open>validator(value, context=context)\<close>: one that always raises
  \<^verbatim>\<open>ValidationException(msg)\<close>, one that rejects even integers, and one that transforms
  the value.\<close>

definition always_fail :: "string \<Rightarrow> validator" where
  "always_fail msg value context = Inl (ValidationException (PStr msg))"

definition reject_even :: validator where
  "reject_even value context =
     (case value of
        PInt n \<Rightarrow> if even n then Inl (ValidationException (PStr ''even'')) else Inr value
      | _ \<Rightarrow> Inr value)"

definition add_one :: validator where
  "add_one value context = (case value of PInt n \<Rightarrow> Inr (PInt (n + 1)) | _ \<Rightarrow> Inr value)"

text \<open>A record with one key \<^verbatim>\<open>n\<close> that rejects even numbers:
  \<^verbatim>\<open>serializer(dict_field('n', validators=[reject_even]))\<close>.\<close>

definition odd_record :: record_translator where
  "odd_record = serializer [dict_field ''n'' None [reject_even] False None []]"

section \<open>The validator chain: properties\<close>

lemma run_validators_loop_append:
  "run_validators_loop (vs @ ws) c v errs =
     (case run_validators_loop vs c v errs of
        Inl x \<Rightarrow> Inl x
      | Inr (v', errs') \<Rightarrow> run_validators_loop ws c v' errs')"
  by (induction vs arbitrary: v errs) (auto split: sum.splits exn.splits)

lemma run_validators_snoc:
  "run_validators value (vs @ [f]) c =
     (case run_validators value vs c of
        Inl x \<Rightarrow> Inl x
      | Inr (v, errs) \<Rightarrow>
          (case f v c of
             Inr v' \<Rightarrow> Inr (v', errs)
           | Inl (ValidationException e) \<Rightarrow> Inr (v, errs @ [e])
           | Inl other \<Rightarrow> Inl other))"
  by (simp add: run_validators_def run_validators_loop_append split: sum.splits exn.splits)

lemma run_validators_all_pass:
  "(\<forall>i<length vs. \<exists>y. (vs ! i) (fold (\<lambda>g x. projr (g x c)) (take i vs) value) c = Inr y)
   \<Longrightarrow> run_validators value vs c = Inr (fold (\<lambda>g x. projr (g x c)) vs value, [])"
proof (induction vs rule: rev_induct)
  case Nil
  then show ?case by (simp add: run_validators_def)
next
  case (snoc f vs)
  have "\<forall>i<length vs. \<exists>y. (vs ! i) (fold (\<lambda>g x. projr (g x c)) (take i vs) value) c = Inr y"
  proof (intro allI impI)
    fix i assume "i < length vs"
    with snoc.prems[rule_format, of i]
    show "\<exists>y. (vs ! i) (fold (\<lambda>g x. projr (g x c)) (take i vs) value) c = Inr y"
      by (simp add: nth_append)
  qed
  then have IH: "run_validators value vs c = Inr (fold (\<lambda>g x. projr (g x c)) vs value, [])"
    by (rule snoc.IH)
  from snoc.prems[rule_format, of "length vs"]
  obtain y where "f (fold (\<lambda>g x. projr (g x c)) vs value) c = Inr y" by auto
  then show ?case by (simp add: run_validators_snoc IH)
qed

text \<open>
  Claim C2. \<^verbatim>\<open>run_validators\<close> on no validators returns the value with no errors. The last
  validator of a chain receives the value the chain before it produced: when it returns,
  its result becomes the value and the errors are unchanged; when it raises a
  \<^verbatim>\<open>ValidationException\<close>, the value stays as it stood before that validator ran and the
  payload is appended to the errors; any other exception leaves the runner. When every
  validator returns on the value it is fed, the result is the fully transformed value
  with an empty error list.
\<close>

theorem run_validators_chain:
  "run_validators value [] c = Inr (value, []) \<and>
   run_validators value (vs @ [f]) c =
     (case run_validators value vs c of
        Inl x \<Rightarrow> Inl x
      | Inr (v, errs) \<Rightarrow>
          (case f v c of
             Inr v' \<Rightarrow> Inr (v', errs)
           | Inl (ValidationException e) \<Rightarrow> Inr (v, errs @ [e])
           | Inl other \<Rightarrow> Inl other)) \<and>
   ((\<forall>i<length vs. \<exists>y. (vs ! i) (fold (\<lambda>g x. projr (g x c)) (take i vs) value) c = Inr y)
      \<longrightarrow> run_validators value vs c = Inr (fold (\<lambda>g x. projr (g x c)) vs value, []))"
  using run_validators_snoc[of "value" vs f c] run_validators_all_pass[of vs c "value"]
  by (simp add: run_validators_def)

theorem run_validators_chain_witness:
  "run_validators (PInt 1) ([add_one, reject_even] @ [add_one]) PNone
     = Inr (PInt 3, [PStr ''even'']) \<and>
   run_validators (PInt 1) [add_one, add_one] PNone = Inr (PInt 3, [])"
proof -
  have h: "\<forall>i<length [add_one, add_one]. \<exists>y.
             ([add_one, add_one] ! i)
               (fold (\<lambda>g x. projr (g x PNone)) (take i [add_one, add_one]) (PInt 1)) PNone = Inr y"
    by (simp add: less_Suc_eq add_one_def nth_Cons')
  have a: "run_validators (PInt 1) [add_one, reject_even] PNone = Inr (PInt 2, [PStr ''even''])"
    by (simp add: run_validators_def add_one_def reject_even_def)
  from run_validators_chain[of "PInt 1" PNone "[add_one, reject_even]" add_one]
  have "run_validators (PInt 1) ([add_one, reject_even] @ [add_one]) PNone
          = Inr (PInt 3, [PStr ''even''])"
    by (simp add: a add_one_def)
  moreover from run_validators_chain[of "PInt 1" PNone "[add_one, add_one]" add_one] h
  have "run_validators (PInt 1) [add_one, add_one] PNone = Inr (PInt 3, [])"
    by (simp add: add_one_def)
  ultimately show ?thesis by simp
qed

section \<open>Scalar fields: properties\<close>


lemma alist_update_fresh:
  "k \<notin> fst ` set d \<Longrightarrow> AList.update k v d = d @ [(k, v)]"
  by (induction d) auto

lemma field_loop_result:
  assumes "\<forall>x\<in>set xs. \<exists>r. run_validators x vs c = Inr r"
    and "\<forall>j\<ge>i. KInt (int j) \<notin> fst ` set errs"
  shows "field_loop vs c i xs nv errs =
           Inr (nv @ map fst (filter (\<lambda>r. snd r = [])
                             (map (\<lambda>x. projr (run_validators x vs c)) xs)),
                errs @ map (\<lambda>(j, r). (KInt (int j), PList (snd r)))
                         (filter (\<lambda>(j, r). snd r \<noteq> [])
                            (enumerate i (map (\<lambda>x. projr (run_validators x vs c)) xs))))"
  using assms
proof (induction xs arbitrary: i nv errs)
  case Nil
  then show ?case by simp
next
  case (Cons x xs)
  from Cons.prems(1) obtain v es where r: "run_validators x vs c = Inr (v, es)" by fastforce
  have rest: "\<forall>x\<in>set xs. \<exists>r. run_validators x vs c = Inr r" using Cons.prems(1) by simp
  show ?case
  proof (cases "es = []")
    case True
    have "\<forall>j\<ge>Suc i. KInt (int j) \<notin> fst ` set errs" using Cons.prems(2) by simp
    from Cons.IH[OF rest this, of "nv @ [v]"] True r
    show ?thesis by (simp add: field_validate_def)
  next
    case False
    have fresh: "KInt (int i) \<notin> fst ` set errs" using Cons.prems(2) by simp
    have upd: "py_update errs (PDict [(KInt (int i), PList es)]) = Inr (errs @ [(KInt (int i), PList es)])"
      using fresh by (simp add: dict_merge_def dict_set_def alist_update_fresh)
    have "\<forall>j\<ge>Suc i. KInt (int j) \<notin> fst ` set (errs @ [(KInt (int i), PList es)])"
      using Cons.prems(2) by auto
    from Cons.IH[OF rest this, of nv] False r upd
    show ?thesis by (simp add: field_validate_def)
  qed
qed


lemma no_index_errors:
  "filter (\<lambda>(j, r). snd r \<noteq> []) (enumerate i rs) = [] \<Longrightarrow> filter (\<lambda>r. snd r = []) rs = rs"
  by (induction rs arbitrary: i) (auto split: if_splits)

text \<open>
  Claim C3. A scalar field built with \<^verbatim>\<open>multiple=True\<close>, on a source mapping whose value
  under \<^verbatim>\<open>target_field\<close> is a list, runs the validator chain on every element on its own
  (\<open>rs\<close> holds the runner's result for each element). The errors are collected in a
  mapping from the index of each failing element to that element's error list, failing
  elements only. When that mapping is not empty the field raises a
  \<^verbatim>\<open>ValidationException\<close> that maps \<^verbatim>\<open>target_field\<close> to it and leaves \<^verbatim>\<open>target\<close> as it
  was; otherwise it writes the list of validated values under \<^verbatim>\<open>source_field\<close>.
  The hypothesis on the elements says that the validators raise nothing but validation
  errors on them.
\<close>

theorem field_multiple_deserialize:
  assumes "map_of src (KStr (or_else tfo sf)) = Some (PList xs)"
    and "\<forall>x\<in>set xs. \<exists>r. run_validators x vs c = Inr r"
  shows "deserialize (field sf tfo vs True ag fs) (PDict src) target c =
     (let rs = map (\<lambda>x. projr (run_validators x vs c)) xs;
          errors = map (\<lambda>(j, r). (KInt (int j), PList (snd r)))
                     (filter (\<lambda>(j, r). snd r \<noteq> []) (enumerate 0 rs))
      in if errors \<noteq> [] then
           (target, Raised (ValidationException (PDict [(KStr (or_else tfo sf), PDict errors)])))
         else (dict_set target (KStr sf) (PList (map fst rs)), Returned))"
proof -
  have loop: "field_loop vs c 0 xs [] [] =
           Inr (map fst (filter (\<lambda>r. snd r = [])
                             (map (\<lambda>x. projr (run_validators x vs c)) xs)),
                map (\<lambda>(j, r). (KInt (int j), PList (snd r)))
                         (filter (\<lambda>(j, r). snd r \<noteq> [])
                            (enumerate 0 (map (\<lambda>x. projr (run_validators x vs c)) xs))))"
    using field_loop_result[OF assms(2), of 0 "[]" "[]"] by simp
  show ?thesis
    using assms(1) no_index_errors[of 0 "map (\<lambda>x. projr (run_validators x vs c)) xs"]
    by (simp add: field_def field_deserialize_def dict_get_def loop Let_def)
qed

theorem field_multiple_deserialize_witness:
  "deserialize (field ''nums'' None [reject_even] True None [])
     (PDict [(KStr ''nums'', PList [PInt 1, PInt 2, PInt 3])]) [] PNone
   = ([], Raised (ValidationException
                    (PDict [(KStr ''nums'', PDict [(KInt 1, PList [PStr ''even''])])]))) \<and>
   deserialize (field ''nums'' (Some ''n'') [reject_even] True None [])
     (PDict [(KStr ''n'', PList [PInt 1, PInt 3])]) [] PNone
   = ([(KStr ''nums'', PList [PInt 1, PInt 3])], Returned)"
proof -
  have r: "\<And>n. run_validators (PInt n) [reject_even] PNone =
             (if even n then Inr (PInt n, [PStr ''even'']) else Inr (PInt n, []))"
    by (simp add: run_validators_def reject_even_def)
  have a: "deserialize (field ''nums'' None [reject_even] True None [])
     (PDict [(KStr ''nums'', PList [PInt 1, PInt 2, PInt 3])]) [] PNone
   = ([], Raised (ValidationException
                    (PDict [(KStr ''nums'', PDict [(KInt 1, PList [PStr ''even''])])])))"
    using field_multiple_deserialize[of "[(KStr ''nums'', PList [PInt 1, PInt 2, PInt 3])]"
        None "''nums''" "[PInt 1, PInt 2, PInt 3]" "[reject_even]" PNone None "[]" "[]"]
    by (simp add: r)
  have b: "deserialize (field ''nums'' (Some ''n'') [reject_even] True None [])
     (PDict [(KStr ''n'', PList [PInt 1, PInt 3])]) [] PNone
   = ([(KStr ''nums'', PList [PInt 1, PInt 3])], Returned)"
    using field_multiple_deserialize[of "[(KStr ''n'', PList [PInt 1, PInt 3])]"
        "Some ''n''" "''nums''" "[PInt 1, PInt 3]" "[reject_even]" PNone None "[]" "[]"]
    by (simp add: r dict_set_def)
  from a b show ?thesis by simp
qed


section \<open>Nested fields and the record builder: lemmas\<close>





lemma rejected_Cons_nonempty: "rejected rest \<noteq> [] \<Longrightarrow> rejected (r # rest) \<noteq> []"
  by (cases "r # rest" rule: rejected.cases) auto

lemma some_rejection:
  "i \<in> set items \<Longrightarrow> f i = Inl (ValidationException e) \<Longrightarrow> rejected (map f items) \<noteq> []"
  by (induction items) (auto simp: rejected_Cons_nonempty)

lemma many_loop_result:
  assumes "\<forall>i\<in>set items. returns_or_rejects (sub_deserialize ser i c)"
  shows "many_loop ser c items coll errs =
           Inr (coll @ accepted (map (\<lambda>i. sub_deserialize ser i c) items),
                errs @ rejected (map (\<lambda>i. sub_deserialize ser i c) items))"
  using assms
  by (induction items arbitrary: coll errs)
     (auto simp: returns_or_rejects_def split: sum.splits exn.splits)

lemma pre_validate_run:
  "run_validators raw vs c = Inr (v, errs) \<Longrightarrow>
   pre_validate tf vs raw c =
     (if errs \<noteq> [] then Inl (ValidationException (PDict [(KStr tf, PList errs)])) else Inr v)"
  by (cases vs) (auto simp: pre_validate_def run_validators_def)

lemma many_deserialize_result:
  assumes "run_validators (dict_get src (KStr (or_else tfo sf)) (PList [])) vs c = Inr (PList items, [])"
    and "\<forall>i\<in>set items. returns_or_rejects (sub_deserialize ser i c)"
  shows "deserialize (many sf tfo ser vs ag) (PDict src) target c =
     (let rs = map (\<lambda>i. sub_deserialize ser i c) items;
          errors = rejected rs
      in (dict_set target (KStr sf) (PList (accepted rs)),
          if errors \<noteq> [] then
            Raised (ValidationException (PDict [(KStr (or_else tfo sf), PList errors)]))
          else Returned))"
  using pre_validate_run[OF assms(1), of "or_else tfo sf"] many_loop_result[OF assms(2), of "[]" "[]"]
  by (simp add: many_def many_deserialize_def Let_def)

lemma child_deserialize_result:
  assumes "run_validators (dict_get src (KStr (or_else tfo sf)) PNone) vs c = Inr (v, errs)"
  shows "deserialize (child sf tfo ser vs ag) (PDict src) target c =
    (if errs \<noteq> [] then
       (target, Raised (ValidationException (PDict [(KStr (or_else tfo sf), PList errs)])))
     else (case sub_deserialize ser v c of
             Inr r \<Rightarrow> (dict_set target (KStr sf) r, Returned)
           | Inl (ValidationException e) \<Rightarrow>
               (target, Raised (ValidationException (PDict [(KStr (or_else tfo sf), e)])))
           | Inl other \<Rightarrow> (target, Raised other)))"
  using pre_validate_run[OF assms(1), of "or_else tfo sf"]
  by (simp add: child_def child_deserialize_def Let_def split: sum.splits exn.splits)

lemma child_deserialize_raise_target:
  "snd (deserialize (child sf tfo ser vs ag) source target c) = Raised e \<Longrightarrow>
   fst (deserialize (child sf tfo ser vs ag) source target c) = target"
  by (auto simp: child_def child_deserialize_def Let_def split: sum.splits exn.splits)



lemma dict_merge_eq: "dict_merge d e = AList.merge d (rev e)"
proof -
  have "(\<lambda>(k, v) acc. dict_set acc k v) = (\<lambda>(k, v). AList.update k v)"
    by (auto simp: dict_set_def fun_eq_iff)
  then show ?thesis
    by (simp add: dict_merge_def AList.merge_def foldr_conv_fold)
qed

lemma map_of_rev_distinct: "distinct (map fst xs) \<Longrightarrow> map_of (rev xs) = map_of xs"
proof (induction xs)
  case Nil
  then show ?case by simp
next
  case (Cons x xs)
  then have "fst x \<notin> dom (map_of xs)" by (simp add: dom_map_of_conv_image_fst)
  then have "map_of xs ++ [fst x \<mapsto> snd x] = [fst x \<mapsto> snd x] ++ map_of xs"
    by (intro map_add_comm) auto
  with Cons show ?case by (cases x) (simp add: map_of_append)
qed

lemma map_of_dict_merge_fresh:
  "k \<notin> fst ` set e \<Longrightarrow> map_of (dict_merge d e) k = map_of d k"
proof -
  assume "k \<notin> fst ` set e"
  then have "map_of (rev e) k = None" by (simp add: map_of_eq_None_iff)
  then show ?thesis by (simp add: dict_merge_eq merge_conv' map_add_def)
qed

lemma map_of_dict_merge_entry:
  "k \<in> fst ` set e \<Longrightarrow> distinct (map fst e) \<Longrightarrow> map_of (dict_merge d e) k = map_of e k"
proof -
  assume k: "k \<in> fst ` set e" and "distinct (map fst e)"
  then have "map_of (rev e) k = map_of e k" by (simp add: map_of_rev_distinct)
  moreover from k obtain v where "map_of e k = Some v"
    by (cases "map_of e k") (auto simp: map_of_eq_None_iff)
  ultimately show ?thesis by (simp add: dict_merge_eq merge_conv' map_add_def)
qed

lemma deserialize_fields_result:
  assumes "\<forall>r\<in>set (field_runs flds source c target). mapping_outcome (snd r)"
  shows "deserialize_fields flds source c target errors =
           Inr (final_target target (field_runs flds source c target),
                merge_all errors (raised_mappings (field_runs flds source c target)))"
  using assms
proof (induction flds arbitrary: target errors)
  case Nil
  then show ?case by (simp add: final_target_def merge_all_def)
next
  case (Cons f flds)
  obtain t' out where r: "deserialize f source target c = (t', out)" by (cases "deserialize f source target c")
  from Cons.prems r have mo: "mapping_outcome out"
    and rest: "\<forall>r\<in>set (field_runs flds source c t'). mapping_outcome (snd r)"
    by (simp_all add: Let_def)
  have ft: "final_target target ((t', out) # field_runs flds source c t') =
            final_target t' (field_runs flds source c t')"
    by (simp add: final_target_def)
  from mo show ?case
  proof (cases out rule: mapping_outcome.cases)
    case 1
    then show ?thesis using Cons.IH[OF rest, of errors] r ft by (simp add: Let_def)
  next
    case (2 e)
    then show ?thesis
      using Cons.IH[OF rest, of "dict_merge errors e"] r ft by (simp add: Let_def merge_all_def)
  qed (use mo in simp_all)
qed

lemma length_field_runs: "length (field_runs flds source c target) = length flds"
  by (induction flds arbitrary: target) (simp_all add: Let_def)

lemma keys_merge_all:
  "fst ` set (merge_all errors ms) = fst ` set errors \<union> (\<Union>e\<in>set ms. fst ` set e)"
  by (induction ms arbitrary: errors) (auto simp: merge_all_def dict_merge_eq dom_merge)




section \<open>Nested fields: properties\<close>


lemma deserialize_field:
  "deserialize (field sf tfo vs m ag fs) = field_deserialize sf (or_else tfo sf) vs m"
  by (simp add: field_def Let_def)

lemma deserialize_dict_field:
  "deserialize (dict_field sf tfo vs m ag fs) = field_deserialize sf (or_else tfo sf) vs m"
  by (simp add: dict_field_def deserialize_field)

lemma deserialize_child:
  "deserialize (child sf tfo ser vs ag) = child_deserialize sf (or_else tfo sf) ser vs"
  by (simp add: child_def Let_def)

lemma deserialize_many:
  "deserialize (many sf tfo ser vs ag) = many_deserialize sf (or_else tfo sf) ser vs"
  by (simp add: many_def Let_def)

lemma deserialize_serializer:
  "deserialize (serializer flds) = serializer_deserialize flds"
  by (simp add: serializer_def)

lemma odd_record_deserialize:
  "deserialize odd_record (PDict [(KStr ''n'', PInt n)]) c =
     (if even n then Inl (ValidationException (PDict [(KStr ''n'', PList [PStr ''even''])]))
      else Inr (PDict [(KStr ''n'', PInt n)]))"
  by (simp add: odd_record_def deserialize_serializer serializer_deserialize_def
      deserialize_dict_field field_deserialize_def field_validate_def run_validators_def reject_even_def dict_get_def
      dict_set_def dict_merge_def)

text \<open>
  Claim C4. \<^verbatim>\<open>child.deserialize\<close> on a source mapping: let the validator chain on the raw
  sub-value return \<open>(v, errs)\<close> (with no pre-validators this is the raw sub-value and no
  errors). When \<open>errs\<close> is not empty the child raises a \<^verbatim>\<open>ValidationException\<close> that maps
  \<^verbatim>\<open>target_field\<close> to \<open>errs\<close>; the outcome does not mention the sub-Translator, which is
  therefore never invoked. Otherwise it delegates \<open>v\<close> to the sub-Translator: a result is
  written into \<^verbatim>\<open>target\<close> under \<^verbatim>\<open>source_field\<close>, and a validation error with payload \<open>e\<close>
  is raised again as the mapping from \<^verbatim>\<open>target_field\<close> to \<open>e\<close>.
\<close>

theorem child_deserialize_delegates:
  assumes "run_validators (dict_get src (KStr (or_else tfo sf)) PNone) vs c = Inr (v, errs)"
  shows "deserialize (child sf tfo ser vs ag) (PDict src) target c =
    (if errs \<noteq> [] then
       (target, Raised (ValidationException (PDict [(KStr (or_else tfo sf), PList errs)])))
     else (case sub_deserialize ser v c of
             Inr r \<Rightarrow> (dict_set target (KStr sf) r, Returned)
           | Inl (ValidationException e) \<Rightarrow>
               (target, Raised (ValidationException (PDict [(KStr (or_else tfo sf), e)])))
           | Inl other \<Rightarrow> (target, Raised other)))"
  using assms by (rule child_deserialize_result)

theorem child_deserialize_delegates_witness:
  "deserialize (child ''kid'' None (Some odd_record) [always_fail ''pre''] None)
     (PDict [(KStr ''kid'', PDict [(KStr ''n'', PInt 1)])]) [] PNone
   = ([], Raised (ValidationException (PDict [(KStr ''kid'', PList [PStr ''pre''])]))) \<and>
   deserialize (child ''kid'' (Some ''k'') (Some odd_record) [] None)
     (PDict [(KStr ''k'', PDict [(KStr ''n'', PInt 2)])]) [] PNone
   = ([], Raised (ValidationException
                    (PDict [(KStr ''k'', PDict [(KStr ''n'', PList [PStr ''even''])])]))) \<and>
   deserialize (child ''kid'' (Some ''k'') (Some odd_record) [] None)
     (PDict [(KStr ''k'', PDict [(KStr ''n'', PInt 1)])]) [] PNone
   = ([(KStr ''kid'', PDict [(KStr ''n'', PInt 1)])], Returned)"
proof -
  have a: "run_validators (dict_get [(KStr ''kid'', PDict [(KStr ''n'', PInt 1)])]
              (KStr (or_else None ''kid'')) PNone) [always_fail ''pre''] PNone
           = Inr (PDict [(KStr ''n'', PInt 1)], [PStr ''pre''])"
    by (simp add: run_validators_def always_fail_def dict_get_def)
  have b: "\<And>n. run_validators (dict_get [(KStr ''k'', PDict [(KStr ''n'', PInt n)])]
              (KStr (or_else (Some ''k'') ''kid'')) PNone) [] PNone
           = Inr (PDict [(KStr ''n'', PInt n)], [])"
    by (simp add: run_validators_def dict_get_def)
  show ?thesis
    using child_deserialize_delegates[OF a, of "Some odd_record" None "[]"]
      child_deserialize_delegates[OF b[of 2], of "Some odd_record" None "[]"]
      child_deserialize_delegates[OF b[of 1], of "Some odd_record" None "[]"]
    by (simp add: odd_record_deserialize dict_set_def)
qed

text \<open>
  Claim C10. Whenever \<^verbatim>\<open>child.deserialize\<close> raises, on any source and with any
  pre-validators and sub-Translator, the \<^verbatim>\<open>target\<close> it was given is left exactly as it was
  passed in.
\<close>

theorem child_deserialize_error_keeps_target:
  "snd (deserialize (child sf tfo ser vs ag) source target c) = Raised e \<Longrightarrow>
   fst (deserialize (child sf tfo ser vs ag) source target c) = target"
  by (rule child_deserialize_raise_target)

theorem child_deserialize_error_keeps_target_witness:
  "snd (deserialize (child ''kid'' None (Some odd_record) [] None)
          (PDict [(KStr ''kid'', PDict [(KStr ''n'', PInt 2)])]) [(KStr ''other'', PInt 7)] PNone)
     = Raised (ValidationException
                 (PDict [(KStr ''kid'', PDict [(KStr ''n'', PList [PStr ''even''])])])) \<and>
   fst (deserialize (child ''kid'' None (Some odd_record) [] None)
          (PDict [(KStr ''kid'', PDict [(KStr ''n'', PInt 2)])]) [(KStr ''other'', PInt 7)] PNone)
     = [(KStr ''other'', PInt 7)]"
proof -
  have r: "snd (deserialize (child ''kid'' None (Some odd_record) [] None)
          (PDict [(KStr ''kid'', PDict [(KStr ''n'', PInt 2)])]) [(KStr ''other'', PInt 7)] PNone)
     = Raised (ValidationException
                 (PDict [(KStr ''kid'', PDict [(KStr ''n'', PList [PStr ''even''])])]))"
    by (simp add: deserialize_child child_deserialize_def pre_validate_def dict_get_def
        odd_record_deserialize)
  from child_deserialize_error_keeps_target[OF r] r show ?thesis by simp
qed

text \<open>
  Claim C5. \<^verbatim>\<open>many.deserialize\<close> on a source mapping whose (pre-validated) sub-value is the
  list \<open>items\<close>, where every delegation returns or raises a validation error and at least
  one element is rejected: the list of the results of the elements that were accepted is
  written into \<^verbatim>\<open>target\<close> under \<^verbatim>\<open>source_field\<close>, and the field raises one
  \<^verbatim>\<open>ValidationException\<close> that maps \<^verbatim>\<open>target_field\<close> to the list of the payloads of the
  rejected elements, in the order of the elements.
\<close>

theorem many_deserialize_partial_write:
  assumes "run_validators (dict_get src (KStr (or_else tfo sf)) (PList [])) vs c
             = Inr (PList items, [])"
    and "\<forall>i\<in>set items. returns_or_rejects (sub_deserialize ser i c)"
    and "\<exists>i\<in>set items. \<exists>e. sub_deserialize ser i c = Inl (ValidationException e)"
  shows "deserialize (many sf tfo ser vs ag) (PDict src) target c =
     (let rs = map (\<lambda>i. sub_deserialize ser i c) items
      in (dict_set target (KStr sf) (PList (accepted rs)),
          Raised (ValidationException
                    (PDict [(KStr (or_else tfo sf), PList (rejected rs))]))))"
proof -
  from assms(3) obtain i e where "i \<in> set items" "sub_deserialize ser i c = Inl (ValidationException e)"
    by blast
  then have "rejected (map (\<lambda>i. sub_deserialize ser i c) items) \<noteq> []"
    by (rule some_rejection)
  then show ?thesis
    using many_deserialize_result[OF assms(1,2), of ag target] by (simp add: Let_def)
qed

theorem many_deserialize_partial_write_witness:
  "deserialize (many ''kids'' None (Some odd_record) [] None)
     (PDict [(KStr ''kids'', PList [PDict [(KStr ''n'', PInt 1)], PDict [(KStr ''n'', PInt 2)],
                                    PDict [(KStr ''n'', PInt 3)]])]) [] PNone
   = ([(KStr ''kids'', PList [PDict [(KStr ''n'', PInt 1)], PDict [(KStr ''n'', PInt 3)]])],
      Raised (ValidationException
                (PDict [(KStr ''kids'', PList [PDict [(KStr ''n'', PList [PStr ''even''])]])])))"
proof -
  let ?items = "[PDict [(KStr ''n'', PInt 1)], PDict [(KStr ''n'', PInt 2)], PDict [(KStr ''n'', PInt 3)]]"
  have a: "run_validators (dict_get [(KStr ''kids'', PList ?items)] (KStr (or_else None ''kids''))
             (PList [])) [] PNone = Inr (PList ?items, [])"
    by (simp add: run_validators_def dict_get_def)
  have b: "\<forall>i\<in>set ?items. returns_or_rejects (sub_deserialize (Some odd_record) i PNone)"
    by (simp add: odd_record_deserialize returns_or_rejects_def)
  have c: "\<exists>i\<in>set ?items. \<exists>e. sub_deserialize (Some odd_record) i PNone = Inl (ValidationException e)"
    by (simp add: odd_record_deserialize)
  show ?thesis
    using many_deserialize_partial_write[OF a b c, of None "[]"]
    by (simp add: odd_record_deserialize dict_set_def)
qed


section \<open>The record builder: properties\<close>

text \<open>
  Claim C1. For a record whose fields either return or raise a \<^verbatim>\<open>ValidationException\<close>
  carrying a mapping, \<^verbatim>\<open>serializer.deserialize\<close> runs every field, one run per field,
  whatever the earlier fields did (\<open>field_runs\<close>); the mappings of the runs that raised
  are merged into one aggregate, whose keys are all the keys of all the raised mappings.
  When the aggregate is not empty it is raised as a single \<^verbatim>\<open>ValidationException\<close>;
  otherwise the target left by the last field is returned.
\<close>

theorem serializer_deserialize_collects:
  assumes "\<forall>r\<in>set (field_runs flds source c []). mapping_outcome (snd r)"
  shows "length (field_runs flds source c []) = length flds \<and>
         deserialize (serializer flds) source c =
           (let runs = field_runs flds source c [];
                errors = merge_all [] (raised_mappings runs)
            in if errors \<noteq> [] then Inl (ValidationException (PDict errors))
               else Inr (PDict (final_target [] runs))) \<and>
         fst ` set (merge_all [] (raised_mappings (field_runs flds source c []))) =
           (\<Union>e\<in>set (raised_mappings (field_runs flds source c [])). fst ` set e)"
  using deserialize_fields_result[OF assms, of "[]"]
  by (simp add: length_field_runs keys_merge_all deserialize_serializer
      serializer_deserialize_def Let_def)

lemma always_fail_field:
  "deserialize (dict_field sf None [always_fail msg] False None []) (PDict src) target c =
     (target, Raised (ValidationException (PDict [(KStr sf, PList [PStr msg])])))"
  by (simp add: deserialize_dict_field field_deserialize_def field_validate_def
      run_validators_def always_fail_def)

theorem serializer_deserialize_collects_witness:
  "deserialize (serializer [dict_field ''a'' None [always_fail ''bad a''] False None [],
                            dict_field ''b'' None [always_fail ''bad b''] False None [],
                            dict_field ''c'' None [always_fail ''bad c''] False None []])
     (PDict [(KStr ''a'', PInt 1)]) PNone
   = Inl (ValidationException
            (PDict [(KStr ''a'', PList [PStr ''bad a'']),
                    (KStr ''b'', PList [PStr ''bad b'']),
                    (KStr ''c'', PList [PStr ''bad c''])])) \<and>
   deserialize (serializer [dict_field ''a'' (Some ''x'') [] False None [],
                            dict_field ''b'' None [add_one] False None []])
     (PDict [(KStr ''x'', PInt 1), (KStr ''b'', PInt 2)]) PNone
   = Inr (PDict [(KStr ''a'', PInt 1), (KStr ''b'', PInt 3)])"
proof -
  let ?flds = "[dict_field ''a'' None [always_fail ''bad a''] False None [],
                dict_field ''b'' None [always_fail ''bad b''] False None [],
                dict_field ''c'' None [always_fail ''bad c''] False None []]"
  have runs: "field_runs ?flds (PDict [(KStr ''a'', PInt 1)]) PNone [] =
     [([], Raised (ValidationException (PDict [(KStr ''a'', PList [PStr ''bad a''])]))),
      ([], Raised (ValidationException (PDict [(KStr ''b'', PList [PStr ''bad b''])]))),
      ([], Raised (ValidationException (PDict [(KStr ''c'', PList [PStr ''bad c''])])))]"
    by (simp add: always_fail_field)
  have h: "\<forall>r\<in>set (field_runs ?flds (PDict [(KStr ''a'', PInt 1)]) PNone []). mapping_outcome (snd r)"
    unfolding runs by simp
  have a: "deserialize (serializer ?flds) (PDict [(KStr ''a'', PInt 1)]) PNone
   = Inl (ValidationException
            (PDict [(KStr ''a'', PList [PStr ''bad a'']),
                    (KStr ''b'', PList [PStr ''bad b'']),
                    (KStr ''c'', PList [PStr ''bad c''])]))"
    using serializer_deserialize_collects[OF h] unfolding runs
    by (simp add: merge_all_def dict_merge_def dict_set_def)
  let ?ok = "[dict_field ''a'' (Some ''x'') [] False None [],
              dict_field ''b'' None [add_one] False None []]"
  let ?src = "PDict [(KStr ''x'', PInt 1), (KStr ''b'', PInt 2)]"
  have runs': "field_runs ?ok ?src PNone [] =
     [([(KStr ''a'', PInt 1)], Returned),
      ([(KStr ''a'', PInt 1), (KStr ''b'', PInt 3)], Returned)]"
    by (simp add: deserialize_dict_field field_deserialize_def field_validate_def
        run_validators_def add_one_def dict_get_def dict_set_def)
  have h': "\<forall>r\<in>set (field_runs ?ok ?src PNone []). mapping_outcome (snd r)"
    unfolding runs' by simp
  have b: "deserialize (serializer ?ok) ?src PNone
             = Inr (PDict [(KStr ''a'', PInt 1), (KStr ''b'', PInt 3)])"
    using serializer_deserialize_collects[OF h'] unfolding runs'
    by (simp add: merge_all_def final_target_def)
  from a b show ?thesis by simp
qed

subsection \<open>A list field with one rejected element, alone and in a record\<close>








subsection \<open>A scalar field on a source without its key\<close>

text \<open>
  Claim C7 at a source without the key: with \<^verbatim>\<open>multiple=False\<close> the field writes
  \<^verbatim>\<open>None\<close>; with \<^verbatim>\<open>multiple=True\<close> the value \<^verbatim>\<open>None\<close> reaches \<^verbatim>\<open>enumerate\<close> and the field
  raises \<^verbatim>\<open>TypeError\<close>, which is not a validation error. \<^verbatim>\<open>many.deserialize\<close> reads the
  same key with the default \<^verbatim>\<open>[]\<close> and returns an empty list.
\<close>

theorem field_multiple_missing_key:
  "deserialize (field ''a'' None [] True None []) (PDict []) [] PNone = ([], Raised TypeError) \<and>
   deserialize (field ''a'' None [] False None []) (PDict []) [] PNone
     = ([(KStr ''a'', PNone)], Returned) \<and>
   deserialize (many ''a'' None (Some odd_record) [] None) (PDict []) [] PNone
     = ([(KStr ''a'', PList [])], Returned)"
  by (simp add: deserialize_field field_deserialize_def field_validate_def run_validators_def
      deserialize_many many_deserialize_def pre_validate_def dict_get_def dict_set_def)

section \<open>Where the caught errors go\<close>














section \<open>Round trips\<close>

lemma keeps_passes:
  "keeps_values c p \<Longrightarrow> passes c p v \<Longrightarrow> \<forall>f\<in>set (fs_validators p). f v c = Inr v"
proof
  fix f assume k: "keeps_values c p" and pa: "passes c p v" and f: "f \<in> set (fs_validators p)"
  from k f have "f v c = Inr v \<or> (\<exists>e. f v c = Inl (ValidationException e))"
    by (simp add: keeps_values_def)
  moreover from pa f have "\<not> (\<exists>e. f v c = Inl (ValidationException e))"
    by (auto simp: passes_def)
  ultimately show "f v c = Inr v" by blast
qed

lemma run_validators_loop_pass:
  "\<forall>f\<in>set vs. f v c = Inr v \<Longrightarrow> run_validators_loop vs c v errs = Inr (v, errs)"
  by (induction vs) simp_all

lemma run_validators_pass:
  "\<forall>f\<in>set vs. f v c = Inr v \<Longrightarrow> run_validators v vs c = Inr (v, [])"
  by (simp add: run_validators_def run_validators_loop_pass)

lemma run_formatters_identity:
  "\<forall>f\<in>set fs. \<forall>x. f x c = Inr x \<Longrightarrow> run_formatters fs v c = Inr v"
  by (induction fs) simp_all

lemma field_loop_pass:
  "\<forall>x\<in>set xs. \<forall>f\<in>set vs. f x c = Inr x \<Longrightarrow>
   field_loop vs c i xs nv errs = Inr (nv @ xs, errs)"
  by (induction xs arbitrary: i nv) (simp_all add: field_validate_def run_validators_pass)

lemma serialize_dict_field_of:
  "keeps_values c p \<Longrightarrow>
   serialize (dict_field_of p) (PDict d) t c =
     (dict_set t (tkey p) (dict_get d (skey p) PNone), Returned)"
  by (simp add: dict_field_of_def dict_field_def field_def Let_def field_serialize_def
      keeps_values_def run_formatters_identity tkey_def skey_def)

lemma deserialize_dict_field_of:
  assumes "keeps_values c p" and "fits c p (dict_get e (tkey p) PNone)"
  shows "deserialize (dict_field_of p) (PDict e) t c =
           (dict_set t (skey p) (dict_get e (tkey p) PNone), Returned)"
proof (cases "fs_multiple p")
  case True
  with assms(2) obtain xs where xs: "dict_get e (tkey p) PNone = PList xs"
    and ok: "\<forall>x\<in>set xs. passes c p x"
    by (auto simp: fits_def split: pyval.splits)
  from ok keeps_passes[OF assms(1)]
  have "\<forall>x\<in>set xs. \<forall>f\<in>set (fs_validators p). f x c = Inr x" by blast
  then have "field_loop (fs_validators p) c 0 xs [] [] = Inr (xs, [])"
    using field_loop_pass[of xs "fs_validators p" c 0 "[]" "[]"] by simp
  with True xs show ?thesis
    by (simp add: dict_field_of_def deserialize_dict_field field_deserialize_def
        tkey_def skey_def)
next
  case False
  with assms(2) have "passes c p (dict_get e (tkey p) PNone)" by (simp add: fits_def)
  with keeps_passes[OF assms(1)]
  have "run_validators (dict_get e (tkey p) PNone) (fs_validators p) c
          = Inr (dict_get e (tkey p) PNone, [])"
    by (intro run_validators_pass) blast
  with False show ?thesis
    by (simp add: dict_field_of_def deserialize_dict_field field_deserialize_def
        field_validate_def tkey_def skey_def)
qed

lemma dict_merge_Cons: "dict_merge t ((k, v) # kvs) = dict_merge (dict_set t k v) kvs"
  by (simp add: dict_merge_def)

lemma serialize_fields_dict:
  "\<forall>p\<in>set specs. keeps_values c p \<Longrightarrow>
   serialize_fields (map dict_field_of specs) (PDict d) c t =
     Inr (dict_merge t (map (\<lambda>p. (tkey p, dict_get d (skey p) PNone)) specs))"
proof (induction specs arbitrary: t)
  case Nil
  then show ?case by (simp add: dict_merge_def)
next
  case (Cons p specs)
  then show ?case by (simp add: serialize_dict_field_of dict_merge_Cons)
qed

lemma deserialize_fields_dict:
  "\<forall>p\<in>set specs. keeps_values c p \<and> fits c p (dict_get e (tkey p) PNone) \<Longrightarrow>
   deserialize_fields (map dict_field_of specs) (PDict e) c t errs =
     Inr (dict_merge t (map (\<lambda>p. (skey p, dict_get e (tkey p) PNone)) specs), errs)"
proof (induction specs arbitrary: t)
  case Nil
  then show ?case by (simp add: dict_merge_def)
next
  case (Cons p specs)
  then show ?case by (simp add: deserialize_dict_field_of dict_merge_Cons)
qed

lemma map_of_dict_merge_empty:
  "distinct (map fst kvs) \<Longrightarrow> map_of (dict_merge [] kvs) = map_of kvs"
proof
  fix k
  assume d: "distinct (map fst kvs)"
  show "map_of (dict_merge [] kvs) k = map_of kvs k"
  proof (cases "k \<in> fst ` set kvs")
    case True
    then show ?thesis using d by (rule map_of_dict_merge_entry)
  next
    case False
    then have "map_of kvs k = None" by (simp add: map_of_eq_None_iff)
    with False show ?thesis by (simp add: map_of_dict_merge_fresh)
  qed
qed

lemma renamed_lookup:
  assumes "distinct (map K specs)" and "p \<in> set specs"
  shows "map_of (map (\<lambda>q. (K q, V q)) specs) (K p) = Some (V p)"
proof -
  have "distinct (map fst (map (\<lambda>q. (K q, V q)) specs))" using assms(1) by (simp add: comp_def)
  moreover have "(K p, V p) \<in> set (map (\<lambda>q. (K q, V q)) specs)" using assms(2) by auto
  ultimately show ?thesis by (rule map_of_is_SomeI)
qed

lemma renamed_get:
  assumes "distinct (map K specs)" and "p \<in> set specs"
  shows "dict_get (dict_merge [] (map (\<lambda>q. (K q, V q)) specs)) (K p) PNone = V p"
proof -
  have "distinct (map fst (map (\<lambda>q. (K q, V q)) specs))" using assms(1) by (simp add: comp_def)
  then have "map_of (dict_merge [] (map (\<lambda>q. (K q, V q)) specs)) = map_of (map (\<lambda>q. (K q, V q)) specs)"
    by (rule map_of_dict_merge_empty)
  then show ?thesis using renamed_lookup[OF assms, of V] by (simp add: dict_get_def)
qed

lemma keyed_lookup:
  "map_of (map (\<lambda>p. (K p, g (K p))) ps) k = (if k \<in> K ` set ps then Some (g k) else None)"
  by (induction ps) auto

lemma copied_map:
  assumes dom: "fst ` set d = K ` set specs"
  shows "map_of (dict_merge [] (map (\<lambda>p. (K p, dict_get d (K p) PNone)) specs)) = map_of d"
proof
  fix k
  have "map_of (dict_merge [] (map (\<lambda>p. (K p, dict_get d (K p) PNone)) specs)) k =
        map_of (map (\<lambda>p. (K p, dict_get d (K p) PNone)) (rev specs)) k"
    by (simp add: dict_merge_eq merge_conv' rev_map)
  also have "\<dots> = (if k \<in> K ` set specs then Some (dict_get d k PNone) else None)"
    using keyed_lookup[of K "\<lambda>k. dict_get d k PNone" "rev specs" k] by simp
  also have "\<dots> = map_of d k"
  proof (cases "k \<in> K ` set specs")
    case True
    with dom have "k \<in> fst ` set d" by simp
    then obtain v where "map_of d k = Some v"
      by (cases "map_of d k") (auto simp: map_of_eq_None_iff)
    with True show ?thesis by (simp add: dict_get_def)
  next
    case False
    with dom have "map_of d k = None" by (simp add: map_of_eq_None_iff)
    with False show ?thesis by simp
  qed
  finally show "map_of (dict_merge [] (map (\<lambda>p. (K p, dict_get d (K p) PNone)) specs)) k
                  = map_of d k" .
qed

lemma round_trip_map:
  assumes k2: "distinct (map K2 specs)" and dom: "fst ` set d = K1 ` set specs"
  shows "map_of (dict_merge []
           (map (\<lambda>p. (K1 p, dict_get (dict_merge [] (map (\<lambda>q. (K2 q, dict_get d (K1 q) PNone)) specs))
                              (K2 p) PNone)) specs)) = map_of d"
proof -
  let ?e = "dict_merge [] (map (\<lambda>q. (K2 q, dict_get d (K1 q) PNone)) specs)"
  have eq: "map (\<lambda>p. (K1 p, dict_get ?e (K2 p) PNone)) specs =
        map (\<lambda>p. (K1 p, dict_get d (K1 p) PNone)) specs"
    using renamed_get[OF k2, of _ "\<lambda>q. dict_get d (K1 q) PNone"] by simp
  show ?thesis by (simp only: eq copied_map[OF dom])
qed

lemma serialize_serializer: "serialize (serializer flds) = serializer_serialize flds"
  by (simp add: serializer_def)

lemma distinct_dict_merge_empty: "distinct (map fst (dict_merge [] kvs))"
  by (simp add: dict_merge_eq distinct_merge)

text \<open>
  Claim C9, amended. For a record built from \<^verbatim>\<open>dict_field\<close>s whose validators and
  formatters do not alter the value (a validator returns it or rejects it, a formatter
  returns it), and for mappings that are well typed for the record (their keys are
  exactly the keys of the fields, and the value under each key fits its field: the
  validators accept it, and element by element for a field with \<^verbatim>\<open>multiple=True\<close>, where it
  is a list): when the \<^verbatim>\<open>target_field\<close>s are pairwise distinct, serializing an internal
  mapping \<open>d\<close> and deserializing the result gives a dictionary with the same keys and
  values as \<open>d\<close>; when the \<^verbatim>\<open>source_field\<close>s are pairwise distinct, deserializing an
  external mapping \<open>e\<close> and serializing the result gives a dictionary with the same keys
  and values as \<open>e\<close>. Two dictionaries with distinct keys and the same \<open>map_of\<close> are equal
  for \<^verbatim>\<open>==\<close>, which ignores the insertion order.
\<close>

theorem dict_record_round_trip:
  assumes keep: "\<forall>p\<in>set specs. keeps_values c p"
  shows "(distinct (map tkey specs) \<and> well_typed c skey specs d \<longrightarrow>
            (\<exists>y d'. serialize (serializer (map dict_field_of specs)) (PDict d) c = Inr y \<and>
                    deserialize (serializer (map dict_field_of specs)) y c = Inr (PDict d') \<and>
                    distinct (map fst d') \<and> map_of d' = map_of d)) \<and>
         (distinct (map skey specs) \<and> well_typed c tkey specs e \<longrightarrow>
            (\<exists>x e'. deserialize (serializer (map dict_field_of specs)) (PDict e) c = Inr x \<and>
                    serialize (serializer (map dict_field_of specs)) x c = Inr (PDict e') \<and>
                    distinct (map fst e') \<and> map_of e' = map_of e))"
proof (intro conjI impI)
  assume h: "distinct (map tkey specs) \<and> well_typed c skey specs d"
  then have tk: "distinct (map tkey specs)" and wt: "well_typed c skey specs d" by simp_all
  let ?y = "dict_merge [] (map (\<lambda>p. (tkey p, dict_get d (skey p) PNone)) specs)"
  let ?d' = "dict_merge [] (map (\<lambda>p. (skey p, dict_get ?y (tkey p) PNone)) specs)"
  have s: "serialize (serializer (map dict_field_of specs)) (PDict d) c = Inr (PDict ?y)"
    using keep by (simp add: serialize_serializer serializer_serialize_def serialize_fields_dict)
  have fitsy: "\<forall>p\<in>set specs. keeps_values c p \<and> fits c p (dict_get ?y (tkey p) PNone)"
  proof
    fix p assume p: "p \<in> set specs"
    have "dict_get ?y (tkey p) PNone = dict_get d (skey p) PNone"
      using renamed_get[OF tk p, of "\<lambda>q. dict_get d (skey q) PNone"] .
    moreover from wt p have "fits c p (dict_get d (skey p) PNone)" by (simp add: well_typed_def)
    ultimately show "keeps_values c p \<and> fits c p (dict_get ?y (tkey p) PNone)"
      using keep p by simp
  qed
  have dd: "deserialize (serializer (map dict_field_of specs)) (PDict ?y) c = Inr (PDict ?d')"
    using deserialize_fields_dict[OF fitsy, of "[]" "[]"]
    by (simp add: deserialize_serializer serializer_deserialize_def)
  have dom: "fst ` set d = skey ` set specs" using wt by (simp add: well_typed_def)
  have "map_of ?d' = map_of d" using tk dom by (rule round_trip_map)
  with s dd distinct_dict_merge_empty
  show "\<exists>y d'. serialize (serializer (map dict_field_of specs)) (PDict d) c = Inr y \<and>
                    deserialize (serializer (map dict_field_of specs)) y c = Inr (PDict d') \<and>
                    distinct (map fst d') \<and> map_of d' = map_of d"
    by blast
next
  assume h: "distinct (map skey specs) \<and> well_typed c tkey specs e"
  then have sk: "distinct (map skey specs)" and wt: "well_typed c tkey specs e" by simp_all
  let ?x = "dict_merge [] (map (\<lambda>p. (skey p, dict_get e (tkey p) PNone)) specs)"
  let ?e' = "dict_merge [] (map (\<lambda>p. (tkey p, dict_get ?x (skey p) PNone)) specs)"
  have fitse: "\<forall>p\<in>set specs. keeps_values c p \<and> fits c p (dict_get e (tkey p) PNone)"
    using keep wt by (simp add: well_typed_def)
  have dd: "deserialize (serializer (map dict_field_of specs)) (PDict e) c = Inr (PDict ?x)"
    using deserialize_fields_dict[OF fitse, of "[]" "[]"]
    by (simp add: deserialize_serializer serializer_deserialize_def)
  have s: "serialize (serializer (map dict_field_of specs)) (PDict ?x) c = Inr (PDict ?e')"
    using keep by (simp add: serialize_serializer serializer_serialize_def serialize_fields_dict)
  have dom: "fst ` set e = tkey ` set specs" using wt by (simp add: well_typed_def)
  have "map_of ?e' = map_of e" using sk dom by (rule round_trip_map)
  with s dd distinct_dict_merge_empty
  show "\<exists>x e'. deserialize (serializer (map dict_field_of specs)) (PDict e) c = Inr x \<and>
                    serialize (serializer (map dict_field_of specs)) x c = Inr (PDict e') \<and>
                    distinct (map fst e') \<and> map_of e' = map_of e"
    by blast
qed

text \<open>
  Claim C9 as stated fails in four ways. For a record whose two fields, without
  validators or formatters, share the \<^verbatim>\<open>target_field\<close> \<^verbatim>\<open>t\<close>, the second write replaces
  the first on \<^verbatim>\<open>serialize\<close>, and \<^verbatim>\<open>deserialize\<close> of the result gives \<^verbatim>\<open>a\<close> the value of
  \<^verbatim>\<open>b\<close>. For a record whose two fields share the \<^verbatim>\<open>source_field\<close> \<^verbatim>\<open>a\<close>, \<^verbatim>\<open>deserialize\<close>
  keeps the second value only and \<^verbatim>\<open>serialize\<close> of the result writes it under both
  keys. For a record built with \<^verbatim>\<open>field\<close>, whose getter reads attributes, \<^verbatim>\<open>deserialize\<close>
  returns a dictionary, on which \<^verbatim>\<open>serialize\<close> raises \<^verbatim>\<open>AttributeError\<close>. And a validator
  that never alters a value may still reject it: on the integer 2 under \<^verbatim>\<open>n\<close>, the record
  that rejects even numbers raises instead of returning.
\<close>

theorem shared_target_breaks_round_trip:
  "serialize (serializer [dict_field ''a'' (Some ''t'') [] False None [],
                          dict_field ''b'' (Some ''t'') [] False None []])
     (PDict [(KStr ''a'', PInt 1), (KStr ''b'', PInt 2)]) PNone
     = Inr (PDict [(KStr ''t'', PInt 2)]) \<and>
   deserialize (serializer [dict_field ''a'' (Some ''t'') [] False None [],
                            dict_field ''b'' (Some ''t'') [] False None []])
     (PDict [(KStr ''t'', PInt 2)]) PNone
     = Inr (PDict [(KStr ''a'', PInt 2), (KStr ''b'', PInt 2)]) \<and>
   map_of [(KStr ''a'', PInt 2), (KStr ''b'', PInt 2)] (KStr ''a'')
     \<noteq> map_of [(KStr ''a'', PInt 1), (KStr ''b'', PInt 2)] (KStr ''a'') \<and>
   deserialize (serializer [dict_field ''a'' (Some ''s'') [] False None [],
                            dict_field ''a'' (Some ''t'') [] False None []])
     (PDict [(KStr ''s'', PInt 1), (KStr ''t'', PInt 2)]) PNone
     = Inr (PDict [(KStr ''a'', PInt 2)]) \<and>
   serialize (serializer [dict_field ''a'' (Some ''s'') [] False None [],
                          dict_field ''a'' (Some ''t'') [] False None []])
     (PDict [(KStr ''a'', PInt 2)]) PNone
     = Inr (PDict [(KStr ''s'', PInt 2), (KStr ''t'', PInt 2)]) \<and>
   deserialize (serializer [field ''a'' None [] False None []])
     (PDict [(KStr ''a'', PInt 1)]) PNone
     = Inr (PDict [(KStr ''a'', PInt 1)]) \<and>
   serialize (serializer [field ''a'' None [] False None []])
     (PDict [(KStr ''a'', PInt 1)]) PNone
     = Inl AttributeError \<and>
   deserialize (serializer [dict_field ''n'' None [reject_even] False None []])
     (PDict [(KStr ''n'', PInt 2)]) PNone
     = Inl (ValidationException (PDict [(KStr ''n'', PList [PStr ''even''])]))"
  by (simp add: serialize_serializer serializer_serialize_def deserialize_serializer
      serializer_deserialize_def dict_field_def field_def Let_def field_serialize_def
      field_deserialize_def field_validate_def run_validators_def dict_get_def dict_set_def
      attrgetter_def reject_even_def dict_merge_def)

theorem dict_record_round_trip_witness:
  "(\<exists>y d'. serialize (serializer (map dict_field_of
               [\<lparr>fs_source = ''a'', fs_target = Some ''x'', fs_validators = [reject_even],
                 fs_multiple = False, fs_formatters = []\<rparr>,
                \<lparr>fs_source = ''b'', fs_target = None, fs_validators = [reject_even],
                 fs_multiple = True, fs_formatters = []\<rparr>]))
              (PDict [(KStr ''b'', PList [PInt 1, PInt 3]), (KStr ''a'', PInt 5)]) PNone = Inr y \<and>
           deserialize (serializer (map dict_field_of
               [\<lparr>fs_source = ''a'', fs_target = Some ''x'', fs_validators = [reject_even],
                 fs_multiple = False, fs_formatters = []\<rparr>,
                \<lparr>fs_source = ''b'', fs_target = None, fs_validators = [reject_even],
                 fs_multiple = True, fs_formatters = []\<rparr>])) y PNone = Inr (PDict d') \<and>
           distinct (map fst d') \<and>
           map_of d' = map_of [(KStr ''b'', PList [PInt 1, PInt 3]), (KStr ''a'', PInt 5)]) \<and>
   (\<exists>x e'. deserialize (serializer (map dict_field_of
               [\<lparr>fs_source = ''a'', fs_target = Some ''x'', fs_validators = [reject_even],
                 fs_multiple = False, fs_formatters = []\<rparr>,
                \<lparr>fs_source = ''b'', fs_target = None, fs_validators = [reject_even],
                 fs_multiple = True, fs_formatters = []\<rparr>]))
              (PDict [(KStr ''b'', PList [PInt 1, PInt 3]), (KStr ''x'', PInt 5)]) PNone = Inr x \<and>
           serialize (serializer (map dict_field_of
               [\<lparr>fs_source = ''a'', fs_target = Some ''x'', fs_validators = [reject_even],
                 fs_multiple = False, fs_formatters = []\<rparr>,
                \<lparr>fs_source = ''b'', fs_target = None, fs_validators = [reject_even],
                 fs_multiple = True, fs_formatters = []\<rparr>])) x PNone = Inr (PDict e') \<and>
           distinct (map fst e') \<and>
           map_of e' = map_of [(KStr ''b'', PList [PInt 1, PInt 3]), (KStr ''x'', PInt 5)])"
proof -
  let ?specs = "[\<lparr>fs_source = ''a'', fs_target = Some ''x'', fs_validators = [reject_even],
                 fs_multiple = False, fs_formatters = []\<rparr>,
                \<lparr>fs_source = ''b'', fs_target = None, fs_validators = [reject_even],
                 fs_multiple = True, fs_formatters = []\<rparr>]"
  have rej: "\<And>x. reject_even x PNone = Inr x \<or> (\<exists>e. reject_even x PNone = Inl (ValidationException e))"
    by (simp add: reject_even_def split: pyval.splits)
  have keep: "\<forall>p\<in>set ?specs. keeps_values PNone p" using rej by (simp add: keeps_values_def)
  have sk: "distinct (map skey ?specs)" by (simp add: skey_def)
  have tk: "distinct (map tkey ?specs)" by (simp add: tkey_def)
  have wd: "well_typed PNone skey ?specs [(KStr ''b'', PList [PInt 1, PInt 3]), (KStr ''a'', PInt 5)]"
    by (auto simp: well_typed_def skey_def fits_def passes_def dict_get_def reject_even_def)
  have we: "well_typed PNone tkey ?specs [(KStr ''b'', PList [PInt 1, PInt 3]), (KStr ''x'', PInt 5)]"
    by (auto simp: well_typed_def tkey_def fits_def passes_def dict_get_def reject_even_def)
  from dict_record_round_trip[OF keep,
      of "[(KStr ''b'', PList [PInt 1, PInt 3]), (KStr ''a'', PInt 5)]"
         "[(KStr ''b'', PList [PInt 1, PInt 3]), (KStr ''x'', PInt 5)]"] sk tk wd we
  show ?thesis by blast
qed

end
